theory Spec2Isabelle
  imports Main "HOL-Library.Word"
begin

section \<open>The document store of mini-file.c\<close>

text \<open>
  A shallow embedding of \<^verbatim>\<open>src/mini-file.c\<close>, the in-memory store of the mini INI
  library: a \<^verbatim>\<open>MiniFile\<close> owns a singly linked list of \<^verbatim>\<open>Section\<close> nodes, each of
  which owns a singly linked list of \<^verbatim>\<open>SectionData\<close> nodes (key and value), and it
  holds the pointer \<^verbatim>\<open>__current_section\<close> to the section selected last.

  A linked list is a HOL list, head first: \<^verbatim>\<open>p->next\<close> is the tail. A pointer into the
  section list is the position of its node counted from the head, \<^verbatim>\<open>NULL\<close> is \<open>None\<close>.
  The only operation that links a new section in front also reassigns the one pointer
  that is kept (\<^verbatim>\<open>__current_section\<close>), so a stored position never goes stale.

  A \<^verbatim>\<open>char *\<close> is a \<open>string option\<close>: \<open>None\<close> is \<^verbatim>\<open>NULL\<close>, \<open>Some s\<close> a NUL-terminated
  string with the bytes \<open>s\<close> (which therefore holds no NUL byte). \<^verbatim>\<open>unsigned int\<close> is
  a 32-bit word and \<^verbatim>\<open>int\<close> a 32-bit signed integer.

  The C functions change the document in place and return a pointer; the model passes
  the document in and returns the returned pointer with the document as it is left.
  Behaviour that C leaves undefined is a \<open>fault\<close>.
\<close>

subsection \<open>Data\<close>

datatype fault =
    NullString    \<comment> \<open>\<^verbatim>\<open>strcmp\<close> reads a \<^verbatim>\<open>NULL\<close> string\<close>
  | BadPointer    \<comment> \<open>a pointer that designates no node is followed\<close>
  | IntOverflow   \<comment> \<open>a signed \<^verbatim>\<open>int\<close> is incremented past \<^verbatim>\<open>INT_MAX\<close>\<close>

text \<open>
  Modelled from the spec: the declarations of \<^verbatim>\<open>SectionData\<close>, \<^verbatim>\<open>Section\<close> and
  \<^verbatim>\<open>MiniFile\<close> are in \<^verbatim>\<open>mini-file.h\<close>, which is not among the sources. The records hold
  the fields that \<^verbatim>\<open>mini-file.c\<close> reads and writes (\<^verbatim>\<open>key\<close>, \<^verbatim>\<open>value\<close>, \<^verbatim>\<open>next\<close>; \<^verbatim>\<open>name\<close>,
  \<^verbatim>\<open>data\<close>, \<^verbatim>\<open>next\<close>; \<^verbatim>\<open>file_name\<close>, \<^verbatim>\<open>section\<close>, \<^verbatim>\<open>__current_section\<close>), with the types
  the spec gives them (an Entry is a pair of strings, a Section a name and its entries,
  a Document a name, its sections and the cursor). The \<^verbatim>\<open>next\<close> fields are the list
  structure.
\<close>

record SectionData =
  sd_key :: "string option"
  sd_value :: "string option"

record Section =
  sec_name :: "string option"
  sec_data :: "SectionData list"

record MiniFile =
  mf_file_name :: "string option"
  mf_section :: "Section list"
  mf_current_section :: "nat option"

text \<open>What a mutating function returns: \<^verbatim>\<open>NULL\<close>, or the \<^verbatim>\<open>mini_file\<close> it was given.\<close>

datatype ret = RetNull | RetMiniFile

subsection \<open>Allocation\<close>

text \<open>
  \<^verbatim>\<open>malloc\<close> and \<^verbatim>\<open>strdup\<close> may fail. Whether a call succeeds is decided outside the
  program, so each function that allocates takes one flag per allocation it makes.
\<close>

definition strdup :: "bool \<Rightarrow> string \<Rightarrow> string option" where
  "strdup ok s = (if ok then Some s else None)"

definition mini_file_section_data_new ::
  "bool \<Rightarrow> bool \<Rightarrow> bool \<Rightarrow> string \<Rightarrow> string \<Rightarrow> SectionData option" where
  "mini_file_section_data_new malloc_ok key_ok value_ok k v =
     (if malloc_ok
      then Some \<lparr>sd_key = strdup key_ok k, sd_value = strdup value_ok v\<rparr>
      else None)"

definition mini_file_section_new :: "bool \<Rightarrow> bool \<Rightarrow> string \<Rightarrow> Section option" where
  "mini_file_section_new malloc_ok name_ok section_name =
     (if malloc_ok
      then Some \<lparr>sec_name = strdup name_ok section_name, sec_data = []\<rparr>
      else None)"

subsection \<open>Searching\<close>

text \<open>
  \<^verbatim>\<open>for (sec = mini_file->section; sec != NULL; sec = sec->next)
    if (strcmp(sec->name, section) == 0) break;\<close>
  The third argument is the position of the node the loop stands at.
\<close>

fun find_section_loop :: "Section list \<Rightarrow> string \<Rightarrow> nat \<Rightarrow> fault + nat option" where
  "find_section_loop [] section_name i = Inr None"
| "find_section_loop (sec # rest) section_name i =
     (case sec_name sec of
        None \<Rightarrow> Inl NullString
      | Some n \<Rightarrow>
          if n = section_name then Inr (Some i)
          else find_section_loop rest section_name (Suc i))"

definition mini_file_find_section :: "MiniFile \<Rightarrow> string \<Rightarrow> fault + nat option" where
  "mini_file_find_section mini_file section_name =
     find_section_loop (mf_section mini_file) section_name 0"

fun find_key_loop :: "SectionData list \<Rightarrow> string \<Rightarrow> fault + SectionData option" where
  "find_key_loop [] k = Inr None"
| "find_key_loop (d # rest) k =
     (case sd_key d of
        None \<Rightarrow> Inl NullString
      | Some k' \<Rightarrow> if k' = k then Inr (Some d) else find_key_loop rest k)"

definition mini_file_find_key :: "Section \<Rightarrow> string \<Rightarrow> fault + SectionData option" where
  "mini_file_find_key sec k = find_key_loop (sec_data sec) k"

subsection \<open>Construction\<close>

text \<open>
  \<^verbatim>\<open>mini_file_new\<close> assigns \<^verbatim>\<open>file_name\<close> and \<^verbatim>\<open>section\<close> and leaves
  \<^verbatim>\<open>__current_section\<close> as \<^verbatim>\<open>malloc\<close> returned it: the argument \<open>garbage\<close> is that
  content. \<^verbatim>\<open>mini_file_insert_section\<close> searches the name first and allocates only when
  no section has it; the cursor is assigned on both paths.
\<close>

definition mini_file_new ::
  "bool \<Rightarrow> bool \<Rightarrow> nat option \<Rightarrow> string option \<Rightarrow> MiniFile option" where
  "mini_file_new malloc_ok name_ok garbage file_name =
     (case file_name of
        None \<Rightarrow> None
      | Some fn \<Rightarrow>
          if malloc_ok
          then Some \<lparr>mf_file_name = strdup name_ok fn, mf_section = [],
                     mf_current_section = garbage\<rparr>
          else None)"

definition mini_file_insert_section ::
  "bool \<Rightarrow> bool \<Rightarrow> MiniFile \<Rightarrow> string \<Rightarrow> fault + (ret \<times> MiniFile)" where
  "mini_file_insert_section malloc_ok name_ok mini_file section_name =
     (case mini_file_find_section mini_file section_name of
        Inl f \<Rightarrow> Inl f
      | Inr (Some i) \<Rightarrow>
          Inr (RetMiniFile, mini_file\<lparr>mf_current_section := Some i\<rparr>)
      | Inr None \<Rightarrow>
          (case mini_file_section_new malloc_ok name_ok section_name of
             None \<Rightarrow> Inr (RetNull, mini_file)
           | Some sec \<Rightarrow>
               Inr (RetMiniFile,
                    mini_file\<lparr>mf_section := sec # mf_section mini_file,
                              mf_current_section := Some 0\<rparr>)))"

text \<open>
  The guard \<^verbatim>\<open>mini_file->section == NULL || mini_file->__current_section == NULL\<close> is
  the first two case distinctions, in the order of the source; \<open>head\<close> is the node
  \<^verbatim>\<open>mini_file->section\<close> points to. The key is searched in
  \<^verbatim>\<open>mini_file->__current_section\<close>, and the new node is linked in front of
  \<^verbatim>\<open>mini_file->section->data\<close>, the entries of the head section. A cursor that
  designates no node of the list cannot be followed.
\<close>

definition mini_file_insert_key_and_value ::
  "bool \<Rightarrow> bool \<Rightarrow> bool \<Rightarrow> MiniFile \<Rightarrow> string \<Rightarrow> string \<Rightarrow> fault + (ret \<times> MiniFile)" where
  "mini_file_insert_key_and_value malloc_ok key_ok value_ok mini_file k v =
     (case mf_section mini_file of
        [] \<Rightarrow> Inr (RetNull, mini_file)
      | head # rest \<Rightarrow>
          (case mf_current_section mini_file of
             None \<Rightarrow> Inr (RetNull, mini_file)
           | Some c \<Rightarrow>
               if c < length (mf_section mini_file) then
                 (case mini_file_find_key (mf_section mini_file ! c) k of
                    Inl f \<Rightarrow> Inl f
                  | Inr (Some d) \<Rightarrow> Inr (RetMiniFile, mini_file)
                  | Inr None \<Rightarrow>
                      (case mini_file_section_data_new malloc_ok key_ok value_ok k v of
                         None \<Rightarrow> Inr (RetNull, mini_file)
                       | Some d \<Rightarrow>
                           Inr (RetMiniFile,
                                mini_file\<lparr>mf_section :=
                                  head\<lparr>sec_data := d # sec_data head\<rparr> # rest\<rparr>)))
               else Inl BadPointer))"

subsection \<open>Queries\<close>

text \<open>
  \<^verbatim>\<open>for (...; p != NULL; p = p->next) n++;\<close> with an \<^verbatim>\<open>unsigned int\<close> counter, which
  wraps around.
\<close>

fun count_loop :: "'a list \<Rightarrow> 32 word \<Rightarrow> 32 word" where
  "count_loop [] n = n"
| "count_loop (x # xs) n = count_loop xs (n + 1)"

definition mini_file_get_number_of_sections :: "MiniFile \<Rightarrow> 32 word" where
  "mini_file_get_number_of_sections mini_file = count_loop (mf_section mini_file) 0"

definition mini_file_get_number_of_keys :: "MiniFile \<Rightarrow> string \<Rightarrow> fault + 32 word" where
  "mini_file_get_number_of_keys mini_file section_name =
     (case mini_file_find_section mini_file section_name of
        Inl f \<Rightarrow> Inl f
      | Inr None \<Rightarrow> Inr 0
      | Inr (Some i) \<Rightarrow> Inr (count_loop (sec_data (mf_section mini_file ! i)) 0))"

text \<open>
  \<^verbatim>\<open>for (i = 0; (i < pos && p != NULL); i++) p = p->next;\<close> with \<^verbatim>\<open>int i\<close> and
  \<^verbatim>\<open>unsigned int pos\<close>: the comparison converts \<open>i\<close> to \<^verbatim>\<open>unsigned int\<close>, and \<open>i++\<close> at
  \<^verbatim>\<open>INT_MAX\<close> is undefined. The result is the list from the node reached (\<open>[]\<close> for
  \<^verbatim>\<open>NULL\<close>). \<^verbatim>\<open>mini_file_get_section\<close> and \<^verbatim>\<open>mini_file_get_key\<close> have the same loop.
\<close>

fun position_loop :: "'a list \<Rightarrow> 32 word \<Rightarrow> int \<Rightarrow> fault + 'a list" where
  "position_loop [] pos i = Inr []"
| "position_loop (x # xs) pos i =
     (if (word_of_int i :: 32 word) < pos
      then (if i = 2147483647 then Inl IntOverflow else position_loop xs pos (i + 1))
      else Inr (x # xs))"

definition mini_file_get_section :: "MiniFile \<Rightarrow> 32 word \<Rightarrow> fault + string option" where
  "mini_file_get_section mini_file section_pos =
     (case position_loop (mf_section mini_file) section_pos 0 of
        Inl f \<Rightarrow> Inl f
      | Inr [] \<Rightarrow> Inr None
      | Inr (sec # rest) \<Rightarrow> Inr (sec_name sec))"

definition mini_file_get_key :: "MiniFile \<Rightarrow> string \<Rightarrow> 32 word \<Rightarrow> fault + string option" where
  "mini_file_get_key mini_file section_name key_pos =
     (case mini_file_find_section mini_file section_name of
        Inl f \<Rightarrow> Inl f
      | Inr None \<Rightarrow> Inr None
      | Inr (Some s) \<Rightarrow>
          (case position_loop (sec_data (mf_section mini_file ! s)) key_pos 0 of
             Inl f \<Rightarrow> Inl f
           | Inr [] \<Rightarrow> Inr None
           | Inr (d # rest) \<Rightarrow> Inr (sd_key d)))"

definition mini_file_get_value :: "MiniFile \<Rightarrow> string \<Rightarrow> string \<Rightarrow> fault + string option" where
  "mini_file_get_value mini_file section_name k =
     (case mini_file_find_section mini_file section_name of
        Inl f \<Rightarrow> Inl f
      | Inr None \<Rightarrow> Inr None
      | Inr (Some s) \<Rightarrow>
          (case mini_file_find_key (mf_section mini_file ! s) k of
             Inl f \<Rightarrow> Inl f
           | Inr None \<Rightarrow> Inr None
           | Inr (Some d) \<Rightarrow> Inr (sd_value d)))"

subsection \<open>Sequences of calls\<close>

text \<open>
  The scanner that drives the store calls the two mutating functions one after the
  other on one document. A \<open>call\<close> is one such call with the outcome of each
  allocation it may make; \<open>run\<close> performs a sequence of them and stops at a fault. A
  call that returns \<^verbatim>\<open>NULL\<close> leaves the document to the calls that follow.
\<close>

datatype call =
    InsertSection bool bool string
  | InsertKeyAndValue bool bool bool string string

fun call_step :: "call \<Rightarrow> MiniFile \<Rightarrow> fault + (ret \<times> MiniFile)" where
  "call_step (InsertSection malloc_ok name_ok n) mini_file =
     mini_file_insert_section malloc_ok name_ok mini_file n"
| "call_step (InsertKeyAndValue malloc_ok key_ok value_ok k v) mini_file =
     mini_file_insert_key_and_value malloc_ok key_ok value_ok mini_file k v"

fun run :: "call list \<Rightarrow> MiniFile \<Rightarrow> fault + MiniFile" where
  "run [] mini_file = Inr mini_file"
| "run (c # cs) mini_file =
     (case call_step c mini_file of
        Inl f \<Rightarrow> Inl f
      | Inr (r, mini_file') \<Rightarrow> run cs mini_file')"

subsection \<open>Well-formed documents\<close>

text \<open>
  A document whose section names and keys are strings, none of them \<^verbatim>\<open>NULL\<close>, and
  whose lists are short enough for the \<^verbatim>\<open>int\<close> counter of the positional queries.
\<close>

definition section_strings_ok :: "Section \<Rightarrow> bool" where
  "section_strings_ok sec =
     (sec_name sec \<noteq> None \<and> list_all (\<lambda>d. sd_key d \<noteq> None) (sec_data sec))"

definition strings_ok :: "MiniFile \<Rightarrow> bool" where
  "strings_ok mini_file = list_all section_strings_ok (mf_section mini_file)"

definition int_indexable :: "'a list \<Rightarrow> bool" where
  "int_indexable xs = (int (length xs) \<le> 2147483647)"

definition sizes_ok :: "MiniFile \<Rightarrow> bool" where
  "sizes_ok mini_file =
     (int_indexable (mf_section mini_file)
      \<and> list_all (\<lambda>sec. int_indexable (sec_data sec)) (mf_section mini_file))"

text \<open>
  The cursor of a document that has sections designates one of them or is \<^verbatim>\<open>NULL\<close>; a
  call in which no \<^verbatim>\<open>strdup\<close> of a name or key fails.
\<close>

definition cursor_ok :: "MiniFile \<Rightarrow> bool" where
  "cursor_ok mini_file =
     (case mf_current_section mini_file of
        None \<Rightarrow> True
      | Some c \<Rightarrow> mf_section mini_file = [] \<or> c < length (mf_section mini_file))"

fun strdups_ok :: "call \<Rightarrow> bool" where
  "strdups_ok (InsertSection malloc_ok name_ok n) = name_ok"
| "strdups_ok (InsertKeyAndValue malloc_ok key_ok value_ok k v) = key_ok"

subsection \<open>Key uniqueness\<close>

text \<open>Within every section of the document, no key occurs twice.\<close>

definition keys_distinct :: "MiniFile \<Rightarrow> bool" where
  "keys_distinct mini_file =
     list_all (\<lambda>sec. distinct (map sd_key (sec_data sec))) (mf_section mini_file)"

subsection \<open>Example documents\<close>

text \<open>
  A document as \<^verbatim>\<open>mini_file_new\<close> returns it, the three selections \<^verbatim>\<open>[A] [B] [A]\<close>, the
  document after \<^verbatim>\<open>[A] [B]\<close>, and the document of the spec's round-trip scenario
  before its last insertion.
\<close>

abbreviation empty_cfg :: MiniFile where
  "empty_cfg \<equiv> \<lparr>mf_file_name = Some ''cfg'', mf_section = [], mf_current_section = None\<rparr>"

abbreviation select_A_B_A :: "call list" where
  "select_A_B_A \<equiv>
     [InsertSection True True ''A'', InsertSection True True ''B'', InsertSection True True ''A'']"

abbreviation cfg_B_A :: MiniFile where
  "cfg_B_A \<equiv>
     \<lparr>mf_file_name = Some ''cfg'',
      mf_section = [\<lparr>sec_name = Some ''B'', sec_data = []\<rparr>,
                    \<lparr>sec_name = Some ''A'', sec_data = []\<rparr>],
      mf_current_section = Some 0\<rparr>"

abbreviation server_cfg :: MiniFile where
  "server_cfg \<equiv>
     \<lparr>mf_file_name = Some ''cfg'',
      mf_section = [\<lparr>sec_name = Some ''client'', sec_data = []\<rparr>,
                    \<lparr>sec_name = Some ''server'',
                     sec_data = [\<lparr>sd_key = Some ''port'', sd_value = Some ''8080''\<rparr>,
                                 \<lparr>sd_key = Some ''host'', sd_value = Some ''localhost''\<rparr>]\<rparr>],
      mf_current_section = Some 0\<rparr>"

section \<open>The loops\<close>

subsection \<open>Searching by name\<close>

lemma find_section_loop_None:
  "find_section_loop secs n i = Inr None \<longleftrightarrow>
   (None \<notin> set (map sec_name secs) \<and> Some n \<notin> set (map sec_name secs))"
  by (induction secs arbitrary: i) (auto split: option.splits)

lemma find_section_loop_Some:
  "find_section_loop secs n i = Inr (Some j) \<Longrightarrow>
   i \<le> j \<and> j - i < length secs \<and> sec_name (secs ! (j - i)) = Some n
   \<and> Some n \<notin> set (map sec_name (take (j - i) secs))
   \<and> None \<notin> set (map sec_name (take (j - i) secs))"
proof (induction secs arbitrary: i)
  case Nil
  then show ?case by simp
next
  case (Cons sec rest)
  show ?case
  proof (cases "sec_name sec = Some n")
    case True
    with Cons.prems show ?thesis by simp
  next
    case False
    with Cons.prems obtain m where m: "sec_name sec = Some m" "m \<noteq> n"
      and r: "find_section_loop rest n (Suc i) = Inr (Some j)"
      by (auto split: option.splits if_splits)
    from Cons.IH [OF r] have ih: "Suc i \<le> j" "j - Suc i < length rest"
      "sec_name (rest ! (j - Suc i)) = Some n"
      "Some n \<notin> set (map sec_name (take (j - Suc i) rest))"
      "None \<notin> set (map sec_name (take (j - Suc i) rest))"
      by simp_all
    from ih(1) have e: "j - i = Suc (j - Suc i)" by simp
    show ?thesis using ih m by (simp add: e)
  qed
qed

lemma find_section_loop_mem:
  "find_section_loop secs n i = Inr (Some j) \<Longrightarrow> Some n \<in> set (map sec_name secs)"
  by (induction secs arbitrary: i) (auto split: option.splits if_splits)

lemma find_key_loop_None:
  "find_key_loop ds k = Inr None \<longleftrightarrow>
   (None \<notin> set (map sd_key ds) \<and> Some k \<notin> set (map sd_key ds))"
  by (induction ds) (auto split: option.splits)

lemma find_section_in_range:
  "mini_file_find_section mf n = Inr (Some s) \<Longrightarrow> s < length (mf_section mf)"
  by (auto simp: mini_file_find_section_def dest: find_section_loop_Some)

lemma strings_ok_find_section:
  assumes "strings_ok mf"
  shows "mini_file_find_section mf n = Inr None \<longleftrightarrow> Some n \<notin> set (map sec_name (mf_section mf))"
proof -
  from assms have "None \<notin> set (map sec_name (mf_section mf))"
    by (auto simp: strings_ok_def section_strings_ok_def list_all_iff)
  then show ?thesis
    by (simp add: mini_file_find_section_def find_section_loop_None)
qed

lemma strings_ok_find_key:
  assumes "strings_ok mf" and "s < length (mf_section mf)"
  shows "mini_file_find_key (mf_section mf ! s) k = Inr None
     \<longleftrightarrow> Some k \<notin> set (map sd_key (sec_data (mf_section mf ! s)))"
proof -
  from assms have "section_strings_ok (mf_section mf ! s)"
    by (simp add: strings_ok_def list_all_length)
  then have "None \<notin> set (map sd_key (sec_data (mf_section mf ! s)))"
    by (auto simp: section_strings_ok_def list_all_iff)
  then show ?thesis
    by (simp add: mini_file_find_key_def find_key_loop_None)
qed

subsection \<open>Counting and positions\<close>

text \<open>
  As long as the list has at most \<^verbatim>\<open>INT_MAX\<close> nodes the counter of the positional
  loop does not overflow, and the loop stops at the node with the position asked for.
\<close>

lemma count_loop_length: "count_loop xs n = n + of_nat (length xs)"
  by (induction xs arbitrary: n) simp_all

lemma unat_count:
  assumes "int_indexable xs"
  shows "unat (count_loop xs 0) = length xs"
proof -
  have "(2::int) ^ 32 = 4294967296" by simp
  with assms have "int (length xs) < 2 ^ 32"
    unfolding int_indexable_def by linarith
  then have "length xs < 2 ^ 32" by (simp only: of_nat_less_numeral_power_cancel_iff)
  then have "length xs mod 2 ^ 32 = length xs" by (rule mod_less)
  then show ?thesis by (simp add: count_loop_length unat_of_nat)
qed


lemma word_of_int_less_iff:
  "0 \<le> i \<Longrightarrow> i \<le> 2147483647 \<Longrightarrow> (word_of_int i :: 32 word) < pos \<longleftrightarrow> i < uint pos"
  by (simp add: word_less_def uint_word_of_int)

lemma position_loop_drop:
  "0 \<le> i \<Longrightarrow> i \<le> uint pos \<Longrightarrow> i + int (length xs) \<le> 2147483647 \<Longrightarrow>
   position_loop xs pos i = Inr (drop (nat (uint pos - i)) xs)"
proof (induction xs arbitrary: i)
  case Nil
  then show ?case by simp
next
  case (Cons x xs)
  from Cons.prems have i: "i < 2147483647" by simp
  show ?case
  proof (cases "i < uint pos")
    case True
    have d: "nat (uint pos - i) = Suc (nat (uint pos - (i + 1)))" using True by simp
    have "position_loop xs pos (i + 1) = Inr (drop (nat (uint pos - (i + 1))) xs)"
      using Cons.prems True by (intro Cons.IH) simp_all
    then show ?thesis using True i Cons.prems(1)
      by (simp add: word_of_int_less_iff d del: One_nat_def)
  next
    case False
    with Cons.prems have "i = uint pos" by simp
    then show ?thesis using i Cons.prems(1) False by (simp add: word_of_int_less_iff)
  qed
qed

lemma position_loop_from_start:
  assumes "int_indexable xs"
  shows "position_loop xs pos 0 = Inr (drop (unat pos) xs)"
proof -
  have a: "(0::int) \<le> 0" by simp
  have b: "(0::int) \<le> uint pos" by simp
  from assms have c: "0 + int (length xs) \<le> 2147483647"
    unfolding int_indexable_def by linarith
  have "position_loop xs pos 0 = Inr (drop (nat (uint pos - 0)) xs)"
    using a b c by (rule position_loop_drop)
  then show ?thesis by simp
qed

lemma position_loop_nth:
  assumes "int_indexable xs"
  shows "position_loop xs pos 0 = Inr (if unat pos < length xs then xs ! unat pos # drop (Suc (unat pos)) xs else [])"
  using assms by (simp add: position_loop_from_start Cons_nth_drop_Suc)

lemma position_loop_map:
  "map f xs = map g ys \<Longrightarrow>
   map_sum id (map f) (position_loop xs pos i) = map_sum id (map g) (position_loop ys pos i)"
proof (induction xs arbitrary: ys i)
  case Nil
  then show ?case by simp
next
  case (Cons x xs)
  then obtain y ys' where ys: "ys = y # ys'" and e: "f x = g y" "map f xs = map g ys'"
    by (cases ys) auto
  from Cons.IH [OF e(2)] show ?case by (simp add: ys e)
qed

lemma get_section_nth:
  assumes "int_indexable (mf_section mf)"
  shows "mini_file_get_section mf pos =
    Inr (if unat pos < length (mf_section mf) then sec_name (mf_section mf ! unat pos) else None)"
  by (simp add: mini_file_get_section_def position_loop_nth [OF assms])

lemma get_key_nth:
  assumes "mini_file_find_section mf n = Inr (Some s)"
    and "int_indexable (sec_data (mf_section mf ! s))"
  shows "mini_file_get_key mf n pos =
    Inr (if unat pos < length (sec_data (mf_section mf ! s))
         then sd_key (sec_data (mf_section mf ! s) ! unat pos) else None)"
  by (simp add: mini_file_get_key_def assms(1) position_loop_nth [OF assms(2)])

lemma get_section_names:
  assumes "map sec_name (mf_section mf') = map sec_name (mf_section mf)"
  shows "mini_file_get_section mf' pos = mini_file_get_section mf pos"
proof -
  have "map_sum id (map sec_name) (position_loop (mf_section mf') pos 0)
      = map_sum id (map sec_name) (position_loop (mf_section mf) pos 0)"
    using assms by (rule position_loop_map)
  then show ?thesis
    unfolding mini_file_get_section_def
    by (cases "position_loop (mf_section mf') pos 0"; cases "position_loop (mf_section mf) pos 0")
      (auto split: list.splits)
qed

section \<open>The mutating functions\<close>

lemma new_sections: "mini_file_new m0 s0 g fn = Some mf0 \<Longrightarrow> mf_section mf0 = []"
  by (auto simp: mini_file_new_def split: option.splits if_splits)

lemma insert_section_names:
  assumes "mini_file_insert_section malloc_ok name_ok mf n = Inr (r, mf')"
    and "distinct (map sec_name (mf_section mf))"
  shows "distinct (map sec_name (mf_section mf'))"
  using assms
  by (auto simp: mini_file_insert_section_def mini_file_find_section_def
      mini_file_section_new_def strdup_def find_section_loop_None
      split: sum.splits option.splits if_splits)

lemma insert_section_again:
  assumes "mini_file_insert_section m1 True mf n = Inr (RetMiniFile, mf1)"
  shows "mini_file_insert_section m2 s2 mf1 n = Inr (RetMiniFile, mf1)"
proof (cases "mini_file_find_section mf n")
  case (Inl f)
  with assms show ?thesis by (simp add: mini_file_insert_section_def)
next
  case (Inr found)
  show ?thesis
  proof (cases found)
    case None
    with Inr assms have mf1: "mf1 = mf\<lparr>mf_section := \<lparr>sec_name = Some n, sec_data = []\<rparr> # mf_section mf,
         mf_current_section := Some 0\<rparr>"
      by (auto simp: mini_file_insert_section_def mini_file_section_new_def strdup_def
          split: if_splits)
    show ?thesis
      by (simp add: mf1 mini_file_insert_section_def mini_file_find_section_def)
  next
    case (Some i)
    with Inr assms have mf1: "mf1 = mf\<lparr>mf_current_section := Some i\<rparr>"
      by (simp add: mini_file_insert_section_def)
    show ?thesis using Inr Some
      by (simp add: mf1 mini_file_insert_section_def mini_file_find_section_def)
  qed
qed

lemma insert_section_found:
  assumes "mini_file_find_section mf n \<noteq> Inr None"
  shows "mini_file_insert_section malloc_ok name_ok mf n = mini_file_insert_section malloc_ok' name_ok' mf n"
  using assms
  by (cases "mini_file_find_section mf n")
    (auto simp: mini_file_insert_section_def split: option.splits)

lemma insert_section_present:
  assumes "mini_file_insert_section m1 True mf n = Inr (RetMiniFile, mf1)"
  shows "Some n \<in> set (map sec_name (mf_section mf1))"
proof (cases "mini_file_find_section mf n")
  case (Inl f)
  with assms show ?thesis by (simp add: mini_file_insert_section_def)
next
  case (Inr found)
  show ?thesis
  proof (cases found)
    case None
    with Inr assms show ?thesis
      by (auto simp: mini_file_insert_section_def mini_file_section_new_def strdup_def
          split: if_splits)
  next
    case (Some i)
    with Inr have "Some n \<in> set (map sec_name (mf_section mf))"
      by (auto simp: mini_file_find_section_def dest: find_section_loop_mem)
    with Inr Some assms show ?thesis
      by (auto simp: mini_file_insert_section_def)
  qed
qed

lemma insert_section_new:
  assumes "None \<notin> set (map sec_name (mf_section mf))"
    and "Some n \<notin> set (map sec_name (mf_section mf))"
  shows "mini_file_insert_section True True mf n =
    Inr (RetMiniFile, mf\<lparr>mf_section := \<lparr>sec_name = Some n, sec_data = []\<rparr> # mf_section mf,
                          mf_current_section := Some 0\<rparr>)"
proof -
  from assms have "find_section_loop (mf_section mf) n 0 = Inr None"
    by (simp add: find_section_loop_None)
  then show ?thesis
    by (simp add: mini_file_insert_section_def mini_file_find_section_def
        mini_file_section_new_def strdup_def)
qed

lemma insert_key_and_value_names:
  assumes "mini_file_insert_key_and_value malloc_ok key_ok value_ok mf k v = Inr (r, mf')"
  shows "map sec_name (mf_section mf') = map sec_name (mf_section mf)"
  using assms
  by (auto simp: mini_file_insert_key_and_value_def mini_file_section_data_new_def
      split: list.splits sum.splits option.splits if_splits)

lemma insert_key_and_value_cursor:
  assumes "mini_file_insert_key_and_value malloc_ok key_ok value_ok mf k v = Inr (r, mf')"
  shows "mf_current_section mf' = mf_current_section mf"
  using assms
  by (auto simp: mini_file_insert_key_and_value_def mini_file_section_data_new_def
      split: list.splits sum.splits option.splits if_splits)

lemma insert_key_and_value_at_head:
  assumes "mf_section mf = sec # rest" and "mf_current_section mf = Some 0"
    and "None \<notin> set (map sd_key (sec_data sec))"
    and "Some k \<notin> set (map sd_key (sec_data sec))"
  shows "mini_file_insert_key_and_value True True True mf k v =
    Inr (RetMiniFile,
      mf\<lparr>mf_section := sec\<lparr>sec_data := \<lparr>sd_key = Some k, sd_value = Some v\<rparr> # sec_data sec\<rparr> # rest\<rparr>)"
proof -
  from assms(3,4) have "find_key_loop (sec_data sec) k = Inr None"
    by (simp add: find_key_loop_None)
  then show ?thesis using assms(1,2)
    by (simp add: mini_file_insert_key_and_value_def mini_file_find_key_def
        mini_file_section_data_new_def strdup_def)
qed

lemma distinct_map_filter_one:
  "distinct (map f xs) \<Longrightarrow> y \<in> set (map f xs) \<Longrightarrow> length (filter (\<lambda>x. f x = y) xs) = 1"
proof (induction xs)
  case Nil then show ?case by simp
next
  case (Cons x xs)
  show ?case
  proof (cases "f x = y")
    case True
    from Cons.prems(1) have "f x \<notin> f ` set xs" by simp
    then have "\<forall>z\<in>set xs. f z \<noteq> y" using True by blast
    then have "filter (\<lambda>x. f x = y) xs = []"
      by (simp add: filter_empty_conv)
    with True show ?thesis by simp
  next
    case False
    with Cons show ?thesis by simp
  qed
qed

lemma run_names_distinct:
  "run calls mf = Inr mf' \<Longrightarrow> distinct (map sec_name (mf_section mf)) \<Longrightarrow>
   distinct (map sec_name (mf_section mf'))"
proof (induction calls arbitrary: mf)
  case Nil
  then show ?case by simp
next
  case (Cons c cs)
  from Cons.prems(1) obtain r mf1 where s: "call_step c mf = Inr (r, mf1)"
    and t: "run cs mf1 = Inr mf'"
    by (auto split: sum.splits)
  have "distinct (map sec_name (mf_section mf1))"
  proof (cases c)
    case (InsertSection a b n)
    with s Cons.prems(2) show ?thesis by (auto dest: insert_section_names)
  next
    case (InsertKeyAndValue a b c' k v)
    with s Cons.prems(2) show ?thesis by (auto dest: insert_key_and_value_names)
  qed
  with t show ?case by (rule Cons.IH)
qed



lemma find_section_loop_no_fault:
  "None \<notin> set (map sec_name secs) \<Longrightarrow> \<exists>r. find_section_loop secs n i = Inr r"
  by (induction secs arbitrary: i) (auto split: option.splits)

lemma find_key_loop_no_fault:
  "None \<notin> set (map sd_key ds) \<Longrightarrow> \<exists>r. find_key_loop ds k = Inr r"
  by (induction ds) (auto split: option.splits)

lemma strings_ok_names: "strings_ok mf \<Longrightarrow> None \<notin> set (map sec_name (mf_section mf))"
  by (auto simp: strings_ok_def section_strings_ok_def list_all_iff)

lemma strings_ok_keys:
  "strings_ok mf \<Longrightarrow> c < length (mf_section mf) \<Longrightarrow>
   None \<notin> set (map sd_key (sec_data (mf_section mf ! c)))"
proof -
  assume "strings_ok mf" and "c < length (mf_section mf)"
  then have "section_strings_ok (mf_section mf ! c)"
    by (simp add: strings_ok_def list_all_length)
  then show ?thesis
    by (auto simp: section_strings_ok_def list_all_iff)
qed

lemma insert_section_well_formed:
  assumes "strings_ok mf" and "cursor_ok mf"
  shows "\<exists>r mf'. mini_file_insert_section malloc_ok True mf n = Inr (r, mf')
    \<and> strings_ok mf' \<and> cursor_ok mf'"
proof -
  from assms(1) have "None \<notin> set (map sec_name (mf_section mf))" by (rule strings_ok_names)
  then obtain found where f: "find_section_loop (mf_section mf) n 0 = Inr found"
    using find_section_loop_no_fault by blast
  show ?thesis
  proof (cases found)
    case None
    with f assms show ?thesis
      by (cases malloc_ok)
        (auto simp: mini_file_insert_section_def mini_file_find_section_def
          mini_file_section_new_def strdup_def strings_ok_def section_strings_ok_def
          cursor_ok_def)
  next
    case (Some i)
    with f have "i < length (mf_section mf)"
      by (auto dest: find_section_loop_Some)
    with f Some assms show ?thesis
      by (simp add: mini_file_insert_section_def mini_file_find_section_def
          strings_ok_def cursor_ok_def)
  qed
qed

lemma insert_key_and_value_well_formed:
  assumes "strings_ok mf" and "cursor_ok mf"
  shows "\<exists>r mf'. mini_file_insert_key_and_value malloc_ok True value_ok mf k v = Inr (r, mf')
    \<and> strings_ok mf' \<and> cursor_ok mf'"
proof (cases "mf_section mf")
  case Nil
  with assms show ?thesis by (simp add: mini_file_insert_key_and_value_def)
next
  case (Cons head rest)
  show ?thesis
  proof (cases "mf_current_section mf")
    case None
    with Cons assms show ?thesis by (simp add: mini_file_insert_key_and_value_def)
  next
    case (Some c)
    with Cons assms(2) have c: "c < length (mf_section mf)" by (simp add: cursor_ok_def)
    with assms(1) have "None \<notin> set (map sd_key (sec_data (mf_section mf ! c)))"
      by (rule strings_ok_keys)
    then obtain found where f: "find_key_loop (sec_data (mf_section mf ! c)) k = Inr found"
      using find_key_loop_no_fault by blast
    from assms(1) Cons have h: "sec_name head \<noteq> None"
      "list_all (\<lambda>d. sd_key d \<noteq> None) (sec_data head)" "list_all section_strings_ok rest"
      by (simp_all add: strings_ok_def section_strings_ok_def)
    show ?thesis
    proof (cases found)
      case None
      with f c Cons Some h assms show ?thesis
        by (cases malloc_ok)
          (simp_all add: mini_file_insert_key_and_value_def mini_file_find_key_def
            mini_file_section_data_new_def strdup_def strings_ok_def section_strings_ok_def
            cursor_ok_def)
    next
      case (Some d)
      with f c Cons \<open>mf_current_section mf = Some c\<close> assms show ?thesis
        by (simp add: mini_file_insert_key_and_value_def mini_file_find_key_def)
    qed
  qed
qed

lemma run_well_formed:
  "strings_ok mf \<Longrightarrow> cursor_ok mf \<Longrightarrow> list_all strdups_ok calls \<Longrightarrow>
   \<exists>mf'. run calls mf = Inr mf' \<and> strings_ok mf' \<and> cursor_ok mf'"
proof (induction calls arbitrary: mf)
  case Nil
  then show ?case by simp
next
  case (Cons c cs)
  have "\<exists>r mf1. call_step c mf = Inr (r, mf1) \<and> strings_ok mf1 \<and> cursor_ok mf1"
  proof (cases c)
    case (InsertSection m s n)
    with Cons.prems show ?thesis using insert_section_well_formed [of mf m n] by simp
  next
    case (InsertKeyAndValue m sk sv k v)
    with Cons.prems show ?thesis using insert_key_and_value_well_formed [of mf m sv k v] by simp
  qed
  then obtain r mf1 where s: "call_step c mf = Inr (r, mf1)" "strings_ok mf1" "cursor_ok mf1"
    by blast
  from Cons.prems(3) have "list_all strdups_ok cs" by simp
  with s have "\<exists>mf'. run cs mf1 = Inr mf' \<and> strings_ok mf' \<and> cursor_ok mf'"
    by (intro Cons.IH)
  with s(1) show ?case by simp
qed

lemma find_section_loop_first:
  "None \<notin> set (map sec_name secs) \<Longrightarrow> Some n \<in> set (map sec_name secs) \<Longrightarrow>
   \<exists>j. find_section_loop secs n i = Inr (Some j)"
  by (induction secs arbitrary: i) (auto split: option.splits)

lemma insert_key_and_value_returns:
  assumes "strings_ok mf" and "cursor_ok mf"
  shows "\<exists>r mf'. mini_file_insert_key_and_value malloc_ok key_ok value_ok mf k v = Inr (r, mf')"
proof (cases "mf_section mf")
  case Nil
  then show ?thesis by (simp add: mini_file_insert_key_and_value_def)
next
  case (Cons head rest)
  show ?thesis
  proof (cases "mf_current_section mf")
    case None
    with Cons show ?thesis by (simp add: mini_file_insert_key_and_value_def)
  next
    case (Some c)
    with Cons assms(2) have c: "c < length (mf_section mf)" by (simp add: cursor_ok_def)
    with assms(1) have "None \<notin> set (map sd_key (sec_data (mf_section mf ! c)))"
      by (rule strings_ok_keys)
    then obtain found where f: "find_key_loop (sec_data (mf_section mf ! c)) k = Inr found"
      using find_key_loop_no_fault by blast
    with c Cons Some show ?thesis
      by (cases found; cases malloc_ok)
        (simp_all add: mini_file_insert_key_and_value_def mini_file_find_key_def
          mini_file_section_data_new_def)
  qed
qed

text \<open>The definitions that evaluate a call on a concrete document.\<close>

lemmas eval_defs =
  mini_file_new_def mini_file_insert_section_def mini_file_insert_key_and_value_def
  mini_file_find_section_def mini_file_find_key_def mini_file_section_new_def
  mini_file_section_data_new_def strdup_def mini_file_get_value_def mini_file_get_key_def
  mini_file_get_section_def mini_file_get_number_of_sections_def
  mini_file_get_number_of_keys_def

section \<open>Entry insertion and the cursor\<close>

text \<open>
  C1. The claim: a successful \<^verbatim>\<open>mini_file_insert_key_and_value\<close> with a key that the
  cursor's section does not hold adds the entry to the cursor's section, also when that
  section is not the head of the section list, so that \<^verbatim>\<open>mini_file_get_value\<close> for the
  cursor section's name and the key returns the value.

  The code searches the key in \<^verbatim>\<open>__current_section\<close> and links the new node into
  \<^verbatim>\<open>mini_file->section\<close>, the head. After \<^verbatim>\<open>[A] [B] [A]\<close> the cursor is at \<open>A\<close>, the
  second node, and the head is \<open>B\<close>: inserting \<open>k = v\<close> returns the document, the entry
  is in \<open>B\<close>, and the value of \<open>k\<close> in \<open>A\<close> is absent.
\<close>

theorem insert_key_and_value_links_at_head:
  "mini_file_new True True None (Some ''cfg'') = Some empty_cfg
   \<and> run select_A_B_A empty_cfg
     = Inr \<lparr>mf_file_name = Some ''cfg'',
            mf_section = [\<lparr>sec_name = Some ''B'', sec_data = []\<rparr>,
                          \<lparr>sec_name = Some ''A'', sec_data = []\<rparr>],
            mf_current_section = Some 1\<rparr>
   \<and> mini_file_insert_key_and_value True True True
       \<lparr>mf_file_name = Some ''cfg'',
        mf_section = [\<lparr>sec_name = Some ''B'', sec_data = []\<rparr>,
                      \<lparr>sec_name = Some ''A'', sec_data = []\<rparr>],
        mf_current_section = Some 1\<rparr> ''k'' ''v''
     = Inr (RetMiniFile,
        \<lparr>mf_file_name = Some ''cfg'',
         mf_section = [\<lparr>sec_name = Some ''B'',
                        sec_data = [\<lparr>sd_key = Some ''k'', sd_value = Some ''v''\<rparr>]\<rparr>,
                       \<lparr>sec_name = Some ''A'', sec_data = []\<rparr>],
         mf_current_section = Some 1\<rparr>)
   \<and> mini_file_get_value
       \<lparr>mf_file_name = Some ''cfg'',
        mf_section = [\<lparr>sec_name = Some ''B'',
                       sec_data = [\<lparr>sd_key = Some ''k'', sd_value = Some ''v''\<rparr>]\<rparr>,
                      \<lparr>sec_name = Some ''A'', sec_data = []\<rparr>],
        mf_current_section = Some 1\<rparr> ''A'' ''k'' = Inr None
   \<and> mini_file_get_value
       \<lparr>mf_file_name = Some ''cfg'',
        mf_section = [\<lparr>sec_name = Some ''B'',
                       sec_data = [\<lparr>sd_key = Some ''k'', sd_value = Some ''v''\<rparr>]\<rparr>,
                      \<lparr>sec_name = Some ''A'', sec_data = []\<rparr>],
        mf_current_section = Some 1\<rparr> ''B'' ''k'' = Inr (Some ''v'')"
  by (simp add: eval_defs)

section \<open>Keys within a section\<close>

text \<open>
  C2. The claim: in every document reached from a new one by calls of
  \<^verbatim>\<open>mini_file_insert_section\<close> and \<^verbatim>\<open>mini_file_insert_key_and_value\<close>, the keys of
  each section are pairwise distinct.

  The duplicate check reads the cursor's section and the node is linked into the head
  section. After \<^verbatim>\<open>[A] [B] [A]\<close>, inserting \<open>k = v1\<close> and then \<open>k = v2\<close> finds no \<open>k\<close> in
  \<open>A\<close> either time and links both nodes into \<open>B\<close>, which then holds the key \<open>k\<close> twice.
\<close>

theorem duplicate_key_in_head_section:
  "run (select_A_B_A @ [InsertKeyAndValue True True True ''k'' ''v1'',
                        InsertKeyAndValue True True True ''k'' ''v2'']) empty_cfg
     = Inr \<lparr>mf_file_name = Some ''cfg'',
            mf_section = [\<lparr>sec_name = Some ''B'',
                           sec_data = [\<lparr>sd_key = Some ''k'', sd_value = Some ''v2''\<rparr>,
                                       \<lparr>sd_key = Some ''k'', sd_value = Some ''v1''\<rparr>]\<rparr>,
                          \<lparr>sec_name = Some ''A'', sec_data = []\<rparr>],
            mf_current_section = Some 1\<rparr>
   \<and> \<not> keys_distinct
       \<lparr>mf_file_name = Some ''cfg'',
        mf_section = [\<lparr>sec_name = Some ''B'',
                       sec_data = [\<lparr>sd_key = Some ''k'', sd_value = Some ''v2''\<rparr>,
                                   \<lparr>sd_key = Some ''k'', sd_value = Some ''v1''\<rparr>]\<rparr>,
                      \<lparr>sec_name = Some ''A'', sec_data = []\<rparr>],
        mf_current_section = Some 1\<rparr>"
  by (simp add: eval_defs keys_distinct_def)

section \<open>The first write wins\<close>

text \<open>
  C3. The claim: in a document with one selected section, inserting the key \<open>k\<close> with
  the value \<open>v1\<close> and then \<open>k\<close> with \<open>v2\<close> leaves the value of \<open>k\<close> in that section at
  \<open>v1\<close>, the second call returning the document unchanged.

  After \<^verbatim>\<open>[A] [B] [A]\<close> the selected section is \<open>A\<close> and the head of the list is \<open>B\<close>. Both
  calls search \<open>k\<close> in \<open>A\<close>, find nothing and link a node into \<open>B\<close>: the second call
  changes the document, the value of \<open>k\<close> in \<open>A\<close> is absent, and the value of \<open>k\<close> in \<open>B\<close>
  is \<open>v2\<close>, the second write.
\<close>

theorem second_write_changes_head_section:
  "run select_A_B_A empty_cfg = Inr (cfg_B_A\<lparr>mf_current_section := Some 1\<rparr>)
   \<and> mini_file_insert_key_and_value True True True
         (cfg_B_A\<lparr>mf_current_section := Some 1\<rparr>) ''k'' ''v1''
       = Inr (RetMiniFile,
           \<lparr>mf_file_name = Some ''cfg'',
            mf_section = [\<lparr>sec_name = Some ''B'',
                           sec_data = [\<lparr>sd_key = Some ''k'', sd_value = Some ''v1''\<rparr>]\<rparr>,
                          \<lparr>sec_name = Some ''A'', sec_data = []\<rparr>],
            mf_current_section = Some 1\<rparr>)
   \<and> mini_file_insert_key_and_value True True True
         \<lparr>mf_file_name = Some ''cfg'',
          mf_section = [\<lparr>sec_name = Some ''B'',
                         sec_data = [\<lparr>sd_key = Some ''k'', sd_value = Some ''v1''\<rparr>]\<rparr>,
                        \<lparr>sec_name = Some ''A'', sec_data = []\<rparr>],
          mf_current_section = Some 1\<rparr> ''k'' ''v2''
       = Inr (RetMiniFile,
           \<lparr>mf_file_name = Some ''cfg'',
            mf_section = [\<lparr>sec_name = Some ''B'',
                           sec_data = [\<lparr>sd_key = Some ''k'', sd_value = Some ''v2''\<rparr>,
                                       \<lparr>sd_key = Some ''k'', sd_value = Some ''v1''\<rparr>]\<rparr>,
                          \<lparr>sec_name = Some ''A'', sec_data = []\<rparr>],
            mf_current_section = Some 1\<rparr>)
   \<and> mini_file_get_value
         \<lparr>mf_file_name = Some ''cfg'',
          mf_section = [\<lparr>sec_name = Some ''B'',
                         sec_data = [\<lparr>sd_key = Some ''k'', sd_value = Some ''v2''\<rparr>,
                                     \<lparr>sd_key = Some ''k'', sd_value = Some ''v1''\<rparr>]\<rparr>,
                        \<lparr>sec_name = Some ''A'', sec_data = []\<rparr>],
          mf_current_section = Some 1\<rparr> ''A'' ''k'' = Inr None
   \<and> mini_file_get_value
         \<lparr>mf_file_name = Some ''cfg'',
          mf_section = [\<lparr>sec_name = Some ''B'',
                         sec_data = [\<lparr>sd_key = Some ''k'', sd_value = Some ''v2''\<rparr>,
                                     \<lparr>sd_key = Some ''k'', sd_value = Some ''v1''\<rparr>]\<rparr>,
                        \<lparr>sec_name = Some ''A'', sec_data = []\<rparr>],
          mf_current_section = Some 1\<rparr> ''B'' ''k'' = Inr (Some ''v2'')"
  by (simp add: eval_defs)

text \<open>
  When the selected section is the head of the section list (as it is when the document
  has one section), the first write wins: for a key that the section does not hold, the
  first call returns the document with the entry added, the second returns the document
  and leaves it as the first call left it, whatever the allocator would do, and
  \<^verbatim>\<open>mini_file_get_value\<close> for the section and the key returns \<open>v1\<close>.
\<close>

theorem first_write_wins:
  assumes "mf_section mini_file = sec # rest" and "mf_current_section mini_file = Some 0"
    and "sec_name sec = Some n"
    and "None \<notin> set (map sd_key (sec_data sec))"
    and "Some k \<notin> set (map sd_key (sec_data sec))"
  shows "\<exists>mini_file1.
      mini_file_insert_key_and_value True True True mini_file k v1 = Inr (RetMiniFile, mini_file1)
    \<and> mini_file_insert_key_and_value malloc_ok key_ok value_ok mini_file1 k v2
        = Inr (RetMiniFile, mini_file1)
    \<and> mini_file_get_value mini_file1 n k = Inr (Some v1)"
proof -
  let ?m = "mini_file\<lparr>mf_section :=
      sec\<lparr>sec_data := \<lparr>sd_key = Some k, sd_value = Some v1\<rparr> # sec_data sec\<rparr> # rest\<rparr>"
  have a: "mini_file_insert_key_and_value True True True mini_file k v1 = Inr (RetMiniFile, ?m)"
    using assms(1,2,4,5) by (rule insert_key_and_value_at_head)
  have b: "mini_file_insert_key_and_value malloc_ok key_ok value_ok ?m k v2 = Inr (RetMiniFile, ?m)"
    using assms(2) by (simp add: mini_file_insert_key_and_value_def mini_file_find_key_def)
  have c: "mini_file_get_value ?m n k = Inr (Some v1)"
    using assms(3)
    by (simp add: mini_file_get_value_def mini_file_find_section_def mini_file_find_key_def)
  from a b c show ?thesis by blast
qed

theorem first_write_wins_witness:
  "mini_file_insert_key_and_value True True True server_cfg ''k'' ''v1''
     = Inr (RetMiniFile,
         server_cfg\<lparr>mf_section :=
           [\<lparr>sec_name = Some ''client'',
             sec_data = [\<lparr>sd_key = Some ''k'', sd_value = Some ''v1''\<rparr>]\<rparr>,
            \<lparr>sec_name = Some ''server'',
             sec_data = [\<lparr>sd_key = Some ''port'', sd_value = Some ''8080''\<rparr>,
                         \<lparr>sd_key = Some ''host'', sd_value = Some ''localhost''\<rparr>]\<rparr>]\<rparr>)
   \<and> (\<exists>mini_file1.
        mini_file_insert_key_and_value True True True server_cfg ''k'' ''v1''
          = Inr (RetMiniFile, mini_file1)
      \<and> mini_file_insert_key_and_value True True True mini_file1 ''k'' ''v2''
          = Inr (RetMiniFile, mini_file1)
      \<and> mini_file_get_value mini_file1 ''client'' ''k'' = Inr (Some ''v1''))"
  using first_write_wins
    [of server_cfg "\<lparr>sec_name = Some ''client'', sec_data = []\<rparr>"
        "[\<lparr>sec_name = Some ''server'',
           sec_data = [\<lparr>sd_key = Some ''port'', sd_value = Some ''8080''\<rparr>,
                       \<lparr>sd_key = Some ''host'', sd_value = Some ''localhost''\<rparr>]\<rparr>]"
        "''client''" "''k''" "''v1''" True True True "''v2''"]
  by (simp add: eval_defs)

section \<open>Enumeration order\<close>



section \<open>Section names\<close>

text \<open>
  C5. In every document reached from a new one by a sequence of calls, whatever the
  allocator does in them, the names of the sections are pairwise distinct. Selecting a
  name in such a document and selecting it again: the second call returns the document
  and leaves it exactly as the first call left it, and exactly one section has the name;
  in a new document the number of sections is then 1.
\<close>

theorem section_names_stay_distinct:
  assumes "mini_file_new m0 s0 g fn = Some mf0" and "run calls mf0 = Inr mf"
  shows "distinct (map sec_name (mf_section mf))
    \<and> (\<forall>mf1. mini_file_insert_section m1 True mf n = Inr (RetMiniFile, mf1) \<longrightarrow>
          mini_file_insert_section m2 s2 mf1 n = Inr (RetMiniFile, mf1)
          \<and> length (filter (\<lambda>sec. sec_name sec = Some n) (mf_section mf1)) = 1
          \<and> (calls = [] \<longrightarrow> mini_file_get_number_of_sections mf1 = 1))"
proof -
  have d: "distinct (map sec_name (mf_section mf))"
    using assms(2) by (rule run_names_distinct) (simp add: new_sections [OF assms(1)])
  have "mini_file_insert_section m2 s2 mf1 n = Inr (RetMiniFile, mf1)
      \<and> length (filter (\<lambda>sec. sec_name sec = Some n) (mf_section mf1)) = 1
      \<and> (calls = [] \<longrightarrow> mini_file_get_number_of_sections mf1 = 1)"
    if h: "mini_file_insert_section m1 True mf n = Inr (RetMiniFile, mf1)" for mf1
  proof (intro conjI impI)
    show "mini_file_insert_section m2 s2 mf1 n = Inr (RetMiniFile, mf1)"
      using h by (rule insert_section_again)
    have "distinct (map sec_name (mf_section mf1))"
      using h d by (rule insert_section_names)
    then show "length (filter (\<lambda>sec. sec_name sec = Some n) (mf_section mf1)) = 1"
      using insert_section_present [OF h] by (rule distinct_map_filter_one)
  next
    assume "calls = []"
    with assms have "mf_section mf = []" by (simp add: new_sections)
    with h show "mini_file_get_number_of_sections mf1 = 1"
      by (auto simp: mini_file_insert_section_def mini_file_find_section_def
          mini_file_section_new_def mini_file_get_number_of_sections_def split: if_splits)
  qed
  with d show ?thesis by blast
qed

theorem section_names_stay_distinct_witness:
  "mini_file_new True True None (Some ''cfg'') = Some empty_cfg
   \<and> run [] empty_cfg = Inr empty_cfg
   \<and> mini_file_insert_section True True empty_cfg ''A''
       = Inr (RetMiniFile, empty_cfg\<lparr>mf_section := [\<lparr>sec_name = Some ''A'', sec_data = []\<rparr>],
                                     mf_current_section := Some 0\<rparr>)
   \<and> mini_file_insert_section True True
         (empty_cfg\<lparr>mf_section := [\<lparr>sec_name = Some ''A'', sec_data = []\<rparr>],
                     mf_current_section := Some 0\<rparr>) ''A''
       = Inr (RetMiniFile, empty_cfg\<lparr>mf_section := [\<lparr>sec_name = Some ''A'', sec_data = []\<rparr>],
                                     mf_current_section := Some 0\<rparr>)
   \<and> mini_file_get_number_of_sections
         (empty_cfg\<lparr>mf_section := [\<lparr>sec_name = Some ''A'', sec_data = []\<rparr>],
                     mf_current_section := Some 0\<rparr>) = 1
   \<and> run [InsertSection True True ''A'', InsertSection True True ''B''] empty_cfg = Inr cfg_B_A
   \<and> distinct (map sec_name (mf_section cfg_B_A))
   \<and> mini_file_insert_section False False cfg_B_A ''A''
       = Inr (RetMiniFile, cfg_B_A\<lparr>mf_current_section := Some 1\<rparr>)
   \<and> mini_file_insert_section False False (cfg_B_A\<lparr>mf_current_section := Some 1\<rparr>) ''A''
       = Inr (RetMiniFile, cfg_B_A\<lparr>mf_current_section := Some 1\<rparr>)
   \<and> length (filter (\<lambda>sec. sec_name sec = Some ''A'')
         (mf_section (cfg_B_A\<lparr>mf_current_section := Some 1\<rparr>))) = 1"
  using section_names_stay_distinct
    [of True True None "Some ''cfg''" empty_cfg "[]" empty_cfg True "''A''" True True]
    section_names_stay_distinct
    [of True True None "Some ''cfg''" empty_cfg
        "[InsertSection True True ''A'', InsertSection True True ''B'']" cfg_B_A
        False "''A''" False False]
  by (simp add: eval_defs)

section \<open>Entry insertion without a section\<close>

text \<open>
  C6. \<^verbatim>\<open>mini_file_insert_key_and_value\<close> on a document that has no section (none was
  ever selected, so the section list is still empty) returns \<^verbatim>\<open>NULL\<close> and leaves the
  document as it was, whatever the allocator would do and whatever the unassigned
  \<^verbatim>\<open>__current_section\<close> holds.
\<close>

theorem insert_key_and_value_no_section:
  "mf_section mini_file = [] \<Longrightarrow>
   mini_file_insert_key_and_value malloc_ok key_ok value_ok mini_file k v
     = Inr (RetNull, mini_file)"
  by (simp add: mini_file_insert_key_and_value_def)

theorem insert_key_and_value_no_section_witness:
  "mini_file_new True True (Some 7) (Some ''cfg'')
     = Some \<lparr>mf_file_name = Some ''cfg'', mf_section = [], mf_current_section = Some 7\<rparr>
   \<and> mini_file_insert_key_and_value True True True
       \<lparr>mf_file_name = Some ''cfg'', mf_section = [], mf_current_section = Some 7\<rparr>
       ''host'' ''localhost''
     = Inr (RetNull,
         \<lparr>mf_file_name = Some ''cfg'', mf_section = [], mf_current_section = Some 7\<rparr>)"
  using insert_key_and_value_no_section
    [of "\<lparr>mf_file_name = Some ''cfg'', mf_section = [], mf_current_section = Some 7\<rparr>"
        True True True "''host''" "''localhost''"]
  by (simp add: mini_file_new_def strdup_def)

section \<open>Queries that find nothing\<close>

text \<open>
  C7. In a document whose section names and keys are strings (none is \<^verbatim>\<open>NULL\<close>), a
  query that finds nothing returns \<^verbatim>\<open>NULL\<close> and does not fault:
  \<^verbatim>\<open>mini_file_get_value\<close> and \<^verbatim>\<open>mini_file_get_key\<close> for a name that no section has,
  \<^verbatim>\<open>mini_file_get_value\<close> for a key that the named section does not hold,
  \<^verbatim>\<open>mini_file_get_key\<close> at a position that is not below the number of keys of the named
  section, and \<^verbatim>\<open>mini_file_get_section\<close> at a position that is not below the number of
  sections. The positional queries count with an \<^verbatim>\<open>int\<close>, so for them the lists have at
  most \<^verbatim>\<open>INT_MAX\<close> nodes.
\<close>

theorem not_found_is_absent:
  assumes "strings_ok mini_file"
  shows "(Some n \<notin> set (map sec_name (mf_section mini_file)) \<longrightarrow>
            mini_file_get_value mini_file n k = Inr None
            \<and> mini_file_get_key mini_file n pos = Inr None)
    \<and> (\<forall>s. mini_file_find_section mini_file n = Inr (Some s)
            \<and> Some k \<notin> set (map sd_key (sec_data (mf_section mini_file ! s))) \<longrightarrow>
            mini_file_get_value mini_file n k = Inr None)
    \<and> (\<forall>c. sizes_ok mini_file \<and> mini_file_get_number_of_keys mini_file n = Inr c \<and> c \<le> pos \<longrightarrow>
            mini_file_get_key mini_file n pos = Inr None)
    \<and> (sizes_ok mini_file \<and> mini_file_get_number_of_sections mini_file \<le> pos \<longrightarrow>
            mini_file_get_section mini_file pos = Inr None)"
proof (intro conjI allI impI)
  assume "Some n \<notin> set (map sec_name (mf_section mini_file))"
  then have f: "mini_file_find_section mini_file n = Inr None"
    using assms by (simp add: strings_ok_find_section)
  show "mini_file_get_value mini_file n k = Inr None"
    by (simp add: mini_file_get_value_def f)
  show "mini_file_get_key mini_file n pos = Inr None"
    by (simp add: mini_file_get_key_def f)
next
  fix s
  assume h: "mini_file_find_section mini_file n = Inr (Some s)
     \<and> Some k \<notin> set (map sd_key (sec_data (mf_section mini_file ! s)))"
  from h have "mini_file_find_section mini_file n = Inr (Some s)" by simp
  then have "s < length (mf_section mini_file)" by (rule find_section_in_range)
  with h assms have "mini_file_find_key (mf_section mini_file ! s) k = Inr None"
    by (simp add: strings_ok_find_key)
  with h show "mini_file_get_value mini_file n k = Inr None"
    by (simp add: mini_file_get_value_def)
next
  fix c
  assume h: "sizes_ok mini_file \<and> mini_file_get_number_of_keys mini_file n = Inr c \<and> c \<le> pos"
  show "mini_file_get_key mini_file n pos = Inr None"
  proof (cases "mini_file_find_section mini_file n")
    case (Inl f)
    with h show ?thesis by (simp add: mini_file_get_number_of_keys_def)
  next
    case (Inr found)
    show ?thesis
    proof (cases found)
      case None
      with Inr show ?thesis by (simp add: mini_file_get_key_def)
    next
      case (Some s)
      with Inr have s: "s < length (mf_section mini_file)" by (simp add: find_section_in_range)
      with h have i: "int_indexable (sec_data (mf_section mini_file ! s))"
        by (simp add: sizes_ok_def list_all_length)
      from h Inr Some have c: "c = count_loop (sec_data (mf_section mini_file ! s)) 0"
        by (simp add: mini_file_get_number_of_keys_def)
      from i have "unat c = length (sec_data (mf_section mini_file ! s))"
        unfolding c by (rule unat_count)
      moreover from h have "unat c \<le> unat pos" by (simp add: word_le_nat_alt)
      ultimately have "\<not> unat pos < length (sec_data (mf_section mini_file ! s))" by simp
      then show ?thesis using Inr Some
        by (simp add: get_key_nth [OF _ i])
    qed
  qed
next
  assume h: "sizes_ok mini_file \<and> mini_file_get_number_of_sections mini_file \<le> pos"
  then have i: "int_indexable (mf_section mini_file)" by (simp add: sizes_ok_def)
  then have "unat (mini_file_get_number_of_sections mini_file) = length (mf_section mini_file)"
    unfolding mini_file_get_number_of_sections_def by (rule unat_count)
  moreover from h have "unat (mini_file_get_number_of_sections mini_file) \<le> unat pos"
    by (simp add: word_le_nat_alt)
  ultimately have "\<not> unat pos < length (mf_section mini_file)" by simp
  then show "mini_file_get_section mini_file pos = Inr None"
    by (simp add: get_section_nth [OF i])
qed

theorem not_found_is_absent_witness:
  "strings_ok server_cfg \<and> sizes_ok server_cfg
   \<and> mini_file_get_value server_cfg ''nope'' ''k'' = Inr None
   \<and> mini_file_get_key server_cfg ''nope'' 0 = Inr None
   \<and> mini_file_find_section server_cfg ''server'' = Inr (Some 1)
   \<and> mini_file_get_value server_cfg ''server'' ''timeout'' = Inr None
   \<and> mini_file_get_number_of_keys server_cfg ''server'' = Inr 2
   \<and> mini_file_get_key server_cfg ''server'' 99 = Inr None
   \<and> mini_file_get_number_of_sections server_cfg = 2
   \<and> mini_file_get_section server_cfg 99 = Inr None"
proof -
  have s: "strings_ok server_cfg"
    by (simp add: strings_ok_def section_strings_ok_def)
  have z: "sizes_ok server_cfg"
    by (simp add: sizes_ok_def int_indexable_def)
  have f: "mini_file_find_section server_cfg ''server'' = Inr (Some 1)"
    by (simp add: mini_file_find_section_def)
  have c: "mini_file_get_number_of_keys server_cfg ''server'' = Inr 2"
    by (simp add: mini_file_get_number_of_keys_def mini_file_find_section_def)
  have n: "mini_file_get_number_of_sections server_cfg = 2"
    by (simp add: mini_file_get_number_of_sections_def)
  note t1 = not_found_is_absent [OF s, of "''nope''" "''k''" 0]
  note t2 = not_found_is_absent [OF s, of "''server''" "''timeout''" 99]
  from t1 have a: "mini_file_get_value server_cfg ''nope'' ''k'' = Inr None"
    "mini_file_get_key server_cfg ''nope'' 0 = Inr None"
    by simp_all
  from t2 f have b: "mini_file_get_value server_cfg ''server'' ''timeout'' = Inr None"
    by simp
  from t2 z c have d: "mini_file_get_key server_cfg ''server'' 99 = Inr None"
    by simp
  from t2 z n have e: "mini_file_get_section server_cfg 99 = Inr None"
    by simp
  from s z a f b c d n e show ?thesis by blast
qed

text \<open>
  Documents with these properties are the ones the store builds: as long as no
  \<^verbatim>\<open>strdup\<close> of a section name or key fails, every sequence of calls on a new document
  returns without a fault, with a document whose names and keys are strings and whose
  cursor designates a section.
\<close>

theorem run_returns_well_formed:
  assumes "mini_file_new malloc_ok name_ok garbage file_name = Some mini_file0"
    and "list_all strdups_ok calls"
  shows "\<exists>mini_file. run calls mini_file0 = Inr mini_file
    \<and> strings_ok mini_file \<and> cursor_ok mini_file"
proof -
  from assms(1) have e: "mf_section mini_file0 = []" by (rule new_sections)
  then have "strings_ok mini_file0" "cursor_ok mini_file0"
    by (simp_all add: strings_ok_def cursor_ok_def split: option.splits)
  then show ?thesis using assms(2) by (rule run_well_formed)
qed

theorem run_returns_well_formed_witness:
  "mini_file_new True True None (Some ''cfg'') = Some empty_cfg
   \<and> list_all strdups_ok
       [InsertSection True True ''server'',
        InsertKeyAndValue True True True ''host'' ''localhost'',
        InsertKeyAndValue False True True ''port'' ''8080'',
        InsertSection True True ''client'']
   \<and> run [InsertSection True True ''server'',
           InsertKeyAndValue True True True ''host'' ''localhost'',
           InsertKeyAndValue False True True ''port'' ''8080'',
           InsertSection True True ''client''] empty_cfg
       = Inr \<lparr>mf_file_name = Some ''cfg'',
              mf_section = [\<lparr>sec_name = Some ''client'', sec_data = []\<rparr>,
                            \<lparr>sec_name = Some ''server'',
                             sec_data = [\<lparr>sd_key = Some ''host'',
                                          sd_value = Some ''localhost''\<rparr>]\<rparr>],
              mf_current_section = Some 0\<rparr>
   \<and> strings_ok \<lparr>mf_file_name = Some ''cfg'',
              mf_section = [\<lparr>sec_name = Some ''client'', sec_data = []\<rparr>,
                            \<lparr>sec_name = Some ''server'',
                             sec_data = [\<lparr>sd_key = Some ''host'',
                                          sd_value = Some ''localhost''\<rparr>]\<rparr>],
              mf_current_section = Some 0\<rparr>"
  using run_returns_well_formed
    [of True True None "Some ''cfg''" empty_cfg
        "[InsertSection True True ''server'',
          InsertKeyAndValue True True True ''host'' ''localhost'',
          InsertKeyAndValue False True True ''port'' ''8080'',
          InsertSection True True ''client'']"]
  by (auto simp: eval_defs)

section \<open>Allocation failure\<close>

text \<open>
  C8. The claim: when an allocation inside \<^verbatim>\<open>mini_file_insert_section\<close> or
  \<^verbatim>\<open>mini_file_insert_key_and_value\<close> fails, the call returns \<^verbatim>\<open>NULL\<close> and the document is
  as before, the partly built node not linked.

  \<^verbatim>\<open>mini_file_section_new\<close> and \<^verbatim>\<open>mini_file_section_data_new\<close> test the result of
  \<^verbatim>\<open>malloc\<close> and not the results of \<^verbatim>\<open>strdup\<close>. When \<^verbatim>\<open>malloc\<close> succeeds and \<^verbatim>\<open>strdup\<close>
  fails, the section with the name \<^verbatim>\<open>NULL\<close> (the entry with the key \<^verbatim>\<open>NULL\<close>) is linked
  into the document, the cursor is moved to the new section and the call returns the
  document. A later search that reaches the node passes \<^verbatim>\<open>NULL\<close> to \<^verbatim>\<open>strcmp\<close>.
\<close>

theorem strdup_failure_links_node:
  "mini_file_insert_section True False empty_cfg ''A''
     = Inr (RetMiniFile,
        \<lparr>mf_file_name = Some ''cfg'',
         mf_section = [\<lparr>sec_name = None, sec_data = []\<rparr>],
         mf_current_section = Some 0\<rparr>)
   \<and> mini_file_insert_key_and_value True False True
       \<lparr>mf_file_name = Some ''cfg'',
        mf_section = [\<lparr>sec_name = Some ''A'', sec_data = []\<rparr>],
        mf_current_section = Some 0\<rparr> ''k'' ''v''
     = Inr (RetMiniFile,
        \<lparr>mf_file_name = Some ''cfg'',
         mf_section = [\<lparr>sec_name = Some ''A'',
                        sec_data = [\<lparr>sd_key = None, sd_value = Some ''v''\<rparr>]\<rparr>],
         mf_current_section = Some 0\<rparr>)
   \<and> mini_file_get_value
       \<lparr>mf_file_name = Some ''cfg'',
        mf_section = [\<lparr>sec_name = None, sec_data = []\<rparr>],
        mf_current_section = Some 0\<rparr> ''A'' ''k'' = Inl NullString"
  by (simp add: eval_defs)

text \<open>
  When it is \<^verbatim>\<open>malloc\<close> that fails, the claim holds:
  \<^verbatim>\<open>mini_file_insert_section\<close> for a name that no section has returns \<^verbatim>\<open>NULL\<close> and leaves
  the document as it was, and \<^verbatim>\<open>mini_file_insert_key_and_value\<close> leaves the document as
  it was.
\<close>

theorem malloc_failure_leaves_document:
  "(mini_file_find_section mini_file n = Inr None \<longrightarrow>
      mini_file_insert_section False name_ok mini_file n = Inr (RetNull, mini_file))
   \<and> (mini_file_insert_key_and_value False key_ok value_ok mini_file k v = Inr (r, mini_file') \<longrightarrow>
      mini_file' = mini_file)"
  by (auto simp: mini_file_insert_section_def mini_file_section_new_def
      mini_file_insert_key_and_value_def mini_file_section_data_new_def
      split: list.splits option.splits sum.splits if_splits)

theorem malloc_failure_leaves_document_witness:
  "mini_file_find_section empty_cfg ''A'' = Inr None
   \<and> mini_file_insert_section False True empty_cfg ''A'' = Inr (RetNull, empty_cfg)
   \<and> mini_file_insert_key_and_value False True True cfg_B_A ''k'' ''v'' = Inr (RetNull, cfg_B_A)"
  using malloc_failure_leaves_document
    [of empty_cfg "''A''" True True True "''k''" "''v''" RetNull empty_cfg]
    malloc_failure_leaves_document
    [of cfg_B_A "''A''" True True True "''k''" "''v''" RetNull cfg_B_A]
  by (simp add: eval_defs)

section \<open>The cursor\<close>

text \<open>
  C9. \<^verbatim>\<open>mini_file_insert_section\<close> sets the cursor to the section of the name on both of
  its paths. In a document whose names and keys are strings: for a name that a section
  has, the call returns the document with the cursor at the first section of that name
  and nothing else changed, whatever the allocator would do; for a name that no section
  has, the call (its allocations succeeding) returns the document with the new section
  in front and the cursor at it. In any document, a call that returns the document with
  the name found or copied leaves the cursor at the section that
  \<^verbatim>\<open>mini_file_find_section\<close> finds for the name. \<^verbatim>\<open>mini_file_insert_key_and_value\<close>
  returns in every document whose cursor designates a section, and whatever it returns
  the cursor is as it was. The queries do not write to the document: they take it and
  return a value.
\<close>

theorem cursor_set_by_insert_section_only:
  "(strings_ok mini_file \<and> Some n \<in> set (map sec_name (mf_section mini_file)) \<longrightarrow>
      (\<exists>i. mini_file_insert_section malloc_ok name_ok mini_file n
              = Inr (RetMiniFile, mini_file\<lparr>mf_current_section := Some i\<rparr>)
            \<and> i < length (mf_section mini_file)
            \<and> sec_name (mf_section mini_file ! i) = Some n
            \<and> mini_file_find_section mini_file n = Inr (Some i)))
   \<and> (strings_ok mini_file \<and> Some n \<notin> set (map sec_name (mf_section mini_file)) \<longrightarrow>
      mini_file_insert_section True True mini_file n
        = Inr (RetMiniFile,
            mini_file\<lparr>mf_section := \<lparr>sec_name = Some n, sec_data = []\<rparr> # mf_section mini_file,
                      mf_current_section := Some 0\<rparr>)
      \<and> mini_file_find_section
            (mini_file\<lparr>mf_section := \<lparr>sec_name = Some n, sec_data = []\<rparr> # mf_section mini_file,
                      mf_current_section := Some 0\<rparr>) n = Inr (Some 0))
   \<and> (strings_ok mini_file \<and> cursor_ok mini_file \<longrightarrow>
      (\<exists>r mini_file'.
        mini_file_insert_key_and_value malloc_ok' key_ok value_ok mini_file k v
          = Inr (r, mini_file')
        \<and> mf_current_section mini_file' = mf_current_section mini_file))
   \<and> (mini_file_insert_section malloc_ok name_ok mini_file n = Inr (RetMiniFile, mini_file1)
      \<and> (name_ok \<or> mini_file_find_section mini_file n \<noteq> Inr None) \<longrightarrow>
      mini_file_find_section mini_file1 n = Inr (mf_current_section mini_file1)
      \<and> (\<exists>i. mf_current_section mini_file1 = Some i \<and> i < length (mf_section mini_file1)
            \<and> sec_name (mf_section mini_file1 ! i) = Some n))
   \<and> (mini_file_insert_key_and_value malloc_ok' key_ok value_ok mini_file k v
         = Inr (r, mini_file2) \<longrightarrow>
      mf_current_section mini_file2 = mf_current_section mini_file)"
proof (intro conjI impI)
  {
    assume a: "strings_ok mini_file \<and> Some n \<in> set (map sec_name (mf_section mini_file))"
    then have "strings_ok mini_file" by (rule conjunct1)
    then have "None \<notin> set (map sec_name (mf_section mini_file))" by (rule strings_ok_names)
    moreover from a have "Some n \<in> set (map sec_name (mf_section mini_file))"
      by (rule conjunct2)
    ultimately have "None \<notin> set (map sec_name (mf_section mini_file))"
      and "Some n \<in> set (map sec_name (mf_section mini_file))"
      by blast+
    then obtain i where f: "find_section_loop (mf_section mini_file) n 0 = Inr (Some i)"
      using find_section_loop_first by blast
    from find_section_loop_Some [OF f]
    have "i < length (mf_section mini_file)" "sec_name (mf_section mini_file ! i) = Some n"
      by simp_all
    moreover from f have "mini_file_find_section mini_file n = Inr (Some i)"
      by (simp add: mini_file_find_section_def)
    moreover from this have "mini_file_insert_section malloc_ok name_ok mini_file n
              = Inr (RetMiniFile, mini_file\<lparr>mf_current_section := Some i\<rparr>)"
      by (simp add: mini_file_insert_section_def)
    ultimately show "\<exists>i. mini_file_insert_section malloc_ok name_ok mini_file n
              = Inr (RetMiniFile, mini_file\<lparr>mf_current_section := Some i\<rparr>)
            \<and> i < length (mf_section mini_file)
            \<and> sec_name (mf_section mini_file ! i) = Some n
            \<and> mini_file_find_section mini_file n = Inr (Some i)"
      by blast
  }
  {
    assume a: "strings_ok mini_file \<and> Some n \<notin> set (map sec_name (mf_section mini_file))"
    then have "strings_ok mini_file" by (rule conjunct1)
    then have "None \<notin> set (map sec_name (mf_section mini_file))" by (rule strings_ok_names)
    moreover from a have "Some n \<notin> set (map sec_name (mf_section mini_file))"
      by (rule conjunct2)
    ultimately have "None \<notin> set (map sec_name (mf_section mini_file))"
      and "Some n \<notin> set (map sec_name (mf_section mini_file))"
      by blast+
    then show "mini_file_insert_section True True mini_file n
        = Inr (RetMiniFile,
            mini_file\<lparr>mf_section := \<lparr>sec_name = Some n, sec_data = []\<rparr> # mf_section mini_file,
                      mf_current_section := Some 0\<rparr>)"
      by (rule insert_section_new)
    show "mini_file_find_section
            (mini_file\<lparr>mf_section := \<lparr>sec_name = Some n, sec_data = []\<rparr> # mf_section mini_file,
                      mf_current_section := Some 0\<rparr>) n = Inr (Some 0)"
      by (simp add: mini_file_find_section_def)
  }
  {
    assume "strings_ok mini_file \<and> cursor_ok mini_file"
    then have "strings_ok mini_file" and "cursor_ok mini_file" by simp_all
    then obtain r mf' where
      h: "mini_file_insert_key_and_value malloc_ok' key_ok value_ok mini_file k v = Inr (r, mf')"
      using insert_key_and_value_returns by blast
    then have "mf_current_section mf' = mf_current_section mini_file"
      by (rule insert_key_and_value_cursor)
    with h show "\<exists>r mini_file'.
        mini_file_insert_key_and_value malloc_ok' key_ok value_ok mini_file k v
          = Inr (r, mini_file')
        \<and> mf_current_section mini_file' = mf_current_section mini_file"
      by blast
  }
  {
    assume a: "mini_file_insert_section malloc_ok name_ok mini_file n = Inr (RetMiniFile, mini_file1)
      \<and> (name_ok \<or> mini_file_find_section mini_file n \<noteq> Inr None)"
    have h: "mini_file_insert_section malloc_ok True mini_file n = Inr (RetMiniFile, mini_file1)"
    proof (cases name_ok)
      case True
      with a show ?thesis by simp
    next
      case False
      with a have "mini_file_find_section mini_file n \<noteq> Inr None" by simp
      then have "mini_file_insert_section malloc_ok True mini_file n
          = mini_file_insert_section malloc_ok name_ok mini_file n"
        by (rule insert_section_found)
      with a show ?thesis by simp
    qed
    have "mini_file_insert_section True True mini_file1 n = Inr (RetMiniFile, mini_file1)"
      using h by (rule insert_section_again)
    then show f: "mini_file_find_section mini_file1 n = Inr (mf_current_section mini_file1)"
      using h
      by (auto simp: mini_file_insert_section_def mini_file_find_section_def
          mini_file_section_new_def strdup_def split: sum.splits option.splits if_splits)
    from h have "mf_current_section mini_file1 \<noteq> None"
      by (auto simp: mini_file_insert_section_def mini_file_section_new_def
          split: sum.splits option.splits if_splits)
    then obtain i where i: "mf_current_section mini_file1 = Some i" by blast
    with f have "find_section_loop (mf_section mini_file1) n 0 = Inr (Some i)"
      by (simp add: mini_file_find_section_def)
    from find_section_loop_Some [OF this] i
    show "\<exists>i. mf_current_section mini_file1 = Some i \<and> i < length (mf_section mini_file1)
              \<and> sec_name (mf_section mini_file1 ! i) = Some n"
      by simp
  }
  assume "mini_file_insert_key_and_value malloc_ok' key_ok value_ok mini_file k v
         = Inr (r, mini_file2)"
  then show "mf_current_section mini_file2 = mf_current_section mini_file"
    by (rule insert_key_and_value_cursor)
qed

theorem cursor_set_by_insert_section_only_witness:
  "strings_ok cfg_B_A \<and> cursor_ok cfg_B_A
   \<and> mini_file_insert_section False False cfg_B_A ''A''
       = Inr (RetMiniFile, cfg_B_A\<lparr>mf_current_section := Some 1\<rparr>)
   \<and> sec_name (mf_section cfg_B_A ! 1) = Some ''A''
   \<and> mini_file_insert_section True True cfg_B_A ''C''
       = Inr (RetMiniFile,
           cfg_B_A\<lparr>mf_section := \<lparr>sec_name = Some ''C'', sec_data = []\<rparr> # mf_section cfg_B_A,
                    mf_current_section := Some 0\<rparr>)
   \<and> mini_file_find_section
         (cfg_B_A\<lparr>mf_section := \<lparr>sec_name = Some ''C'', sec_data = []\<rparr> # mf_section cfg_B_A,
                  mf_current_section := Some 0\<rparr>) ''C'' = Inr (Some 0)
   \<and> strings_ok empty_cfg \<and> cursor_ok empty_cfg
   \<and> mini_file_insert_section True True empty_cfg ''A''
       = Inr (RetMiniFile,
           empty_cfg\<lparr>mf_section := [\<lparr>sec_name = Some ''A'', sec_data = []\<rparr>],
                      mf_current_section := Some 0\<rparr>)
   \<and> mini_file_insert_key_and_value True True True (cfg_B_A\<lparr>mf_current_section := Some 1\<rparr>)
         ''k'' ''v''
       = Inr (RetMiniFile,
           cfg_B_A\<lparr>mf_section :=
               [\<lparr>sec_name = Some ''B'',
                 sec_data = [\<lparr>sd_key = Some ''k'', sd_value = Some ''v''\<rparr>]\<rparr>,
                \<lparr>sec_name = Some ''A'', sec_data = []\<rparr>],
             mf_current_section := Some 1\<rparr>)"
proof -
  have s: "strings_ok cfg_B_A" "strings_ok (cfg_B_A\<lparr>mf_current_section := Some 1\<rparr>)"
    "strings_ok empty_cfg"
    by (simp_all add: strings_ok_def section_strings_ok_def)
  have c: "cursor_ok cfg_B_A" "cursor_ok (cfg_B_A\<lparr>mf_current_section := Some 1\<rparr>)"
    "cursor_ok empty_cfg"
    by (simp_all add: cursor_ok_def)
  note t1 = cursor_set_by_insert_section_only
    [where mini_file = cfg_B_A and n = "''A''" and malloc_ok = False and name_ok = False]
  note t2 = cursor_set_by_insert_section_only
    [where mini_file = cfg_B_A and n = "''C''"]
  note t3 = cursor_set_by_insert_section_only
    [where mini_file = empty_cfg and n = "''A''"]
  note t4 = cursor_set_by_insert_section_only
    [where mini_file = "cfg_B_A\<lparr>mf_current_section := Some 1\<rparr>" and malloc_ok' = True
       and key_ok = True and value_ok = True and k = "''k''" and v = "''v''"]
  from t1 s(1) have a: "mini_file_insert_section False False cfg_B_A ''A''
       = Inr (RetMiniFile, cfg_B_A\<lparr>mf_current_section := Some 1\<rparr>)"
    by (simp add: mini_file_find_section_def)
  from t2 s(1) have b: "mini_file_insert_section True True cfg_B_A ''C''
       = Inr (RetMiniFile,
           cfg_B_A\<lparr>mf_section := \<lparr>sec_name = Some ''C'', sec_data = []\<rparr> # mf_section cfg_B_A,
                    mf_current_section := Some 0\<rparr>)"
    "mini_file_find_section
         (cfg_B_A\<lparr>mf_section := \<lparr>sec_name = Some ''C'', sec_data = []\<rparr> # mf_section cfg_B_A,
                  mf_current_section := Some 0\<rparr>) ''C'' = Inr (Some 0)"
    by simp_all
  from t3 s(3) have d: "mini_file_insert_section True True empty_cfg ''A''
       = Inr (RetMiniFile,
           empty_cfg\<lparr>mf_section := [\<lparr>sec_name = Some ''A'', sec_data = []\<rparr>],
                      mf_current_section := Some 0\<rparr>)"
    by simp
  from t4 s(2) c(2) have e: "mini_file_insert_key_and_value True True True (cfg_B_A\<lparr>mf_current_section := Some 1\<rparr>)
         ''k'' ''v''
       = Inr (RetMiniFile,
           cfg_B_A\<lparr>mf_section :=
               [\<lparr>sec_name = Some ''B'',
                 sec_data = [\<lparr>sd_key = Some ''k'', sd_value = Some ''v''\<rparr>]\<rparr>,
                \<lparr>sec_name = Some ''A'', sec_data = []\<rparr>],
             mf_current_section := Some 1\<rparr>)"
    by (simp add: eval_defs)
  from s(1) c(1) a b s(3) c(3) d e show ?thesis by simp
qed

section \<open>Entry insertion and the section list\<close>

text \<open>
  C10. Whatever \<^verbatim>\<open>mini_file_insert_key_and_value\<close> returns, the sections of the document
  are the same in number, in name and in order as before the call, so
  \<^verbatim>\<open>mini_file_get_number_of_sections\<close> and \<^verbatim>\<open>mini_file_get_section\<close> at every position
  return what they returned before.
\<close>

theorem insert_key_and_value_keeps_sections:
  assumes "mini_file_insert_key_and_value malloc_ok key_ok value_ok mini_file k v
             = Inr (r, mini_file')"
  shows "map sec_name (mf_section mini_file') = map sec_name (mf_section mini_file)
    \<and> length (mf_section mini_file') = length (mf_section mini_file)
    \<and> mini_file_get_number_of_sections mini_file' = mini_file_get_number_of_sections mini_file
    \<and> mini_file_get_section mini_file' pos = mini_file_get_section mini_file pos"
proof -
  have n: "map sec_name (mf_section mini_file') = map sec_name (mf_section mini_file)"
    using assms by (rule insert_key_and_value_names)
  then have l: "length (mf_section mini_file') = length (mf_section mini_file)"
    by (rule map_eq_imp_length_eq)
  from n have "mini_file_get_section mini_file' pos = mini_file_get_section mini_file pos"
    by (rule get_section_names)
  with n l show ?thesis
    by (simp add: mini_file_get_number_of_sections_def count_loop_length)
qed

theorem insert_key_and_value_keeps_sections_witness:
  "mini_file_insert_key_and_value True True True server_cfg ''timeout'' ''30''
     = Inr (RetMiniFile,
         server_cfg\<lparr>mf_section :=
           [\<lparr>sec_name = Some ''client'',
             sec_data = [\<lparr>sd_key = Some ''timeout'', sd_value = Some ''30''\<rparr>]\<rparr>,
            \<lparr>sec_name = Some ''server'',
             sec_data = [\<lparr>sd_key = Some ''port'', sd_value = Some ''8080''\<rparr>,
                         \<lparr>sd_key = Some ''host'', sd_value = Some ''localhost''\<rparr>]\<rparr>]\<rparr>)
   \<and> map sec_name (mf_section
         (server_cfg\<lparr>mf_section :=
           [\<lparr>sec_name = Some ''client'',
             sec_data = [\<lparr>sd_key = Some ''timeout'', sd_value = Some ''30''\<rparr>]\<rparr>,
            \<lparr>sec_name = Some ''server'',
             sec_data = [\<lparr>sd_key = Some ''port'', sd_value = Some ''8080''\<rparr>,
                         \<lparr>sd_key = Some ''host'', sd_value = Some ''localhost''\<rparr>]\<rparr>]\<rparr>))
     = [Some ''client'', Some ''server'']
   \<and> map sec_name (mf_section server_cfg) = [Some ''client'', Some ''server'']"
  using insert_key_and_value_keeps_sections
    [of True True True server_cfg "''timeout''" "''30''" RetMiniFile
        "server_cfg\<lparr>mf_section :=
           [\<lparr>sec_name = Some ''client'',
             sec_data = [\<lparr>sd_key = Some ''timeout'', sd_value = Some ''30''\<rparr>]\<rparr>,
            \<lparr>sec_name = Some ''server'',
             sec_data = [\<lparr>sd_key = Some ''port'', sd_value = Some ''8080''\<rparr>,
                         \<lparr>sd_key = Some ''host'', sd_value = Some ''localhost''\<rparr>]\<rparr>]\<rparr>" 0]
  by (simp add: eval_defs)

end
